theory Spec2Isabelle
  imports Complex_Main "HOL-Library.AList"
begin

section \<open>Values of a table\<close>

text \<open>
  \<^verbatim>\<open>veverky.py\<close> is a script over a pandas DataFrame read from a CSV file. A cell of
  such a frame is a missing value (NaN), a Python string, an integer, a boolean or a
  floating-point number. The type \<open>'f\<close> stands for the floating-point numbers; the
  script never computes with them, it only prints them (\<open>str\<close>) and obtains them from
  \<^verbatim>\<open>pd.to_numeric\<close>. Both library operations are parameters of the model:
  \<^item> \<open>float_str :: 'f \<Rightarrow> string\<close> is Python's \<open>str\<close> on a float;
  \<^item> \<open>parse_num :: string \<Rightarrow> 'f option\<close> is the numeric parser behind
    \<^verbatim>\<open>pd.to_numeric(..., errors='coerce')\<close>; \<open>None\<close> is a string that does not parse
    (or parses to NaN), which \<open>errors='coerce'\<close> turns into NaN instead of raising.
\<close>

datatype 'f cell = NaN | StrV string | IntV int | BoolV bool | FloatV 'f

datatype py_error = FileNotFoundError | KeyError string | TypeError

type_synonym 'f series = "'f cell list"

text \<open>
  A DataFrame is its columns in header order, each a name and a series. All series
  of a frame that pandas builds have the same length, and the header of a frame read
  by \<^verbatim>\<open>read_csv\<close> has no repeated name and at least one column.
\<close>

type_synonym 'f dataframe = "(string \<times> 'f series) list"

definition len_df :: "'f dataframe \<Rightarrow> nat" where
  "len_df df = (case df of [] \<Rightarrow> 0 | (c, s) # _ \<Rightarrow> length s)"

definition wf_frame :: "'f dataframe \<Rightarrow> bool" where
  "wf_frame df = list_all (\<lambda>(c, s). length s = len_df df) df"

text \<open>\<^verbatim>\<open>df[col]\<close> raises \<open>KeyError\<close> for a column that the frame does not have.\<close>

definition getitem :: "'f dataframe \<Rightarrow> string \<Rightarrow> py_error + 'f series" where
  "getitem df col = (case map_of df col of None \<Rightarrow> Inl (KeyError col) | Some s \<Rightarrow> Inr s)"

text \<open>
  \<^verbatim>\<open>df[col] = s\<close> replaces an existing column in place and appends a new one; the
  script only assigns series computed from a column of the same frame, so the lengths
  agree.
\<close>

definition setitem :: "'f dataframe \<Rightarrow> string \<Rightarrow> 'f series \<Rightarrow> 'f dataframe" where
  "setitem df col s = AList.update col s df"

section \<open>Python's \<open>str\<close> and \<open>upper\<close>\<close>

definition digit_char :: "nat \<Rightarrow> char" where
  "digit_char d = ''0123456789'' ! d"

fun str_nat :: "nat \<Rightarrow> string" where
  "str_nat n = (if n < 10 then [digit_char n] else str_nat (n div 10) @ [digit_char (n mod 10)])"

declare str_nat.simps [simp del]

definition str_int :: "int \<Rightarrow> string" where
  "str_int i = (if i < 0 then CHR ''-'' # str_nat (nat (- i)) else str_nat (nat i))"

text \<open>
  \<open>str(x)\<close> of a cell: NaN prints as \<open>nan\<close>, a boolean as \<open>True\<close> or \<open>False\<close>, a
  string is itself. \<^verbatim>\<open>Series.astype(str)\<close> gives the same text for every cell.
\<close>

fun py_str :: "('f \<Rightarrow> string) \<Rightarrow> 'f cell \<Rightarrow> string" where
  "py_str float_str NaN = ''nan''"
| "py_str float_str (StrV s) = s"
| "py_str float_str (IntV i) = str_int i"
| "py_str float_str (BoolV b) = (if b then ''True'' else ''False'')"
| "py_str float_str (FloatV x) = float_str x"

text \<open>
  \<open>str.upper()\<close>. A \<open>string\<close> here is a list of bytes and only the ASCII letters are
  mapped. Python's \<open>upper\<close> also maps letters beyond ASCII, but none of them to a text
  made of the letters T, R, U, E alone, so the comparison with \<open>TRUE\<close> that the
  script makes has the same outcome.
\<close>

definition upper_char :: "char \<Rightarrow> char" where
  "upper_char c =
     (case map_of (zip ''abcdefghijklmnopqrstuvwxyz'' ''ABCDEFGHIJKLMNOPQRSTUVWXYZ'') c of
        None \<Rightarrow> c | Some u \<Rightarrow> u)"

definition upper :: "string \<Rightarrow> string" where
  "upper s = map upper_char s"

section \<open>The loader: \<open>load_data\<close>\<close>

text \<open>\<^verbatim>\<open>.str.replace(',', '.')\<close>: every comma becomes a period.\<close>

definition str_replace :: "char \<Rightarrow> char \<Rightarrow> string \<Rightarrow> string" where
  "str_replace old new s = map (\<lambda>c. if c = old then new else c) s"

text \<open>\<^verbatim>\<open>pd.to_numeric(..., errors='coerce')\<close> on one string: the number, or NaN.\<close>

definition to_numeric :: "(string \<Rightarrow> 'f option) \<Rightarrow> string \<Rightarrow> 'f cell" where
  "to_numeric parse_num s = (case parse_num s of None \<Rightarrow> NaN | Some x \<Rightarrow> FloatV x)"

text \<open>
  One entry of
  \<^verbatim>\<open>pd.to_numeric(df['X'].astype(str).str.replace(',', '.'), errors='coerce')\<close>.
\<close>

definition coerce_coord :: "('f \<Rightarrow> string) \<Rightarrow> (string \<Rightarrow> 'f option) \<Rightarrow> 'f cell \<Rightarrow> 'f cell" where
  "coerce_coord float_str parse_num v =
     to_numeric parse_num (str_replace CHR '','' CHR ''.'' (py_str float_str v))"

text \<open>\<^verbatim>\<open>lambda x: True if str(x).upper() == 'TRUE' else False\<close>\<close>

definition coerce_flag :: "('f \<Rightarrow> string) \<Rightarrow> 'f cell \<Rightarrow> 'f cell" where
  "coerce_flag float_str x = BoolV (if upper (py_str float_str x) = ''TRUE'' then True else False)"

definition bool_cols :: "string list" where
  "bool_cols = [''Running'', ''Chasing'', ''Climbing'', ''Eating'', ''Foraging'', ''Kuks'',
     ''Quaas'', ''Moans'', ''Tail_flags'', ''Tail_twitches'', ''Approaches'', ''Indifferent'',
     ''Runs_from'']"

text \<open>
  The loop \<^verbatim>\<open>for col in bool_cols: if col in df.columns: df[col] = df[col].apply(...)\<close>.
\<close>

fun convert_bool_cols :: "('f \<Rightarrow> string) \<Rightarrow> string list \<Rightarrow> 'f dataframe \<Rightarrow> 'f dataframe" where
  "convert_bool_cols float_str [] df = df"
| "convert_bool_cols float_str (col # cols) df =
     convert_bool_cols float_str cols
       (case map_of df col of
          None \<Rightarrow> df
        | Some s \<Rightarrow> setitem df col (map (coerce_flag float_str) s))"

text \<open>
  \<open>load_data\<close>. Its argument is what \<^verbatim>\<open>pd.read_csv(file_path)\<close> gives: the frame,
  or the error it raised. \<^verbatim>\<open>df['X']\<close> and \<^verbatim>\<open>df['Y']\<close> raise \<open>KeyError\<close> when the
  column is missing.
\<close>

definition load_data ::
  "('f \<Rightarrow> string) \<Rightarrow> (string \<Rightarrow> 'f option) \<Rightarrow> py_error + 'f dataframe \<Rightarrow> py_error + 'f dataframe" where
  "load_data float_str parse_num src =
     (case src of
        Inl e \<Rightarrow> Inl e
      | Inr df \<Rightarrow>
          (case getitem df ''X'' of
             Inl e \<Rightarrow> Inl e
           | Inr xs \<Rightarrow>
               let df1 = setitem df ''X'' (map (coerce_coord float_str parse_num) xs) in
               (case getitem df1 ''Y'' of
                  Inl e \<Rightarrow> Inl e
                | Inr ys \<Rightarrow>
                    let df2 = setitem df1 ''Y'' (map (coerce_coord float_str parse_num) ys) in
                    Inr (convert_bool_cols float_str bool_cols df2))))"

text \<open>
  What \<open>load_data\<close> does to the column named \<open>col\<close>, written per column: the two
  coordinate columns are parsed, the declared flag columns become booleans, every
  other column passes through.
\<close>

definition normalize_col ::
  "('f \<Rightarrow> string) \<Rightarrow> (string \<Rightarrow> 'f option) \<Rightarrow> string \<Rightarrow> 'f series \<Rightarrow> 'f series" where
  "normalize_col float_str parse_num col s =
     (if col = ''X'' \<or> col = ''Y'' then map (coerce_coord float_str parse_num) s
      else if col \<in> set bool_cols then map (coerce_flag float_str) s
      else s)"

section \<open>Filter choices and the filtered frame\<close>

text \<open>\<^verbatim>\<open>Series.dropna()\<close>\<close>

definition dropna :: "'f series \<Rightarrow> 'f series" where
  "dropna s = filter (\<lambda>v. v \<noteq> NaN) s"

text \<open>
  \<^verbatim>\<open>Series.unique()\<close> walks the series with a hash table of the values seen so far and
  emits a value the first time it meets it.
\<close>

fun unique_from :: "'a list \<Rightarrow> 'a list \<Rightarrow> 'a list" where
  "unique_from seen [] = []"
| "unique_from seen (v # vs) =
     (if v \<in> set seen then unique_from seen vs else v # unique_from (v # seen) vs)"

definition unique :: "'a list \<Rightarrow> 'a list" where
  "unique s = unique_from [] s"

text \<open>\<^verbatim>\<open>df[col].dropna().unique().tolist()\<close>\<close>

definition available_values :: "'f dataframe \<Rightarrow> string \<Rightarrow> py_error + 'f cell list" where
  "available_values df col =
     (case getitem df col of Inl e \<Rightarrow> Inl e | Inr s \<Rightarrow> Inr (unique (dropna s)))"

definition fur_colors :: "'f dataframe \<Rightarrow> py_error + 'f cell list" where
  "fur_colors df = available_values df ''Primary_Fur_Color''"

definition ages :: "'f dataframe \<Rightarrow> py_error + 'f cell list" where
  "ages df = available_values df ''Age''"

definition shifts :: "'f dataframe \<Rightarrow> py_error + 'f cell list" where
  "shifts df = available_values df ''Shift''"

text \<open>
  The same list in the words of the specification: the values at the positions where
  a non-null value occurs for the first time, in the order of these positions.
\<close>

definition first_seen_values :: "'f series \<Rightarrow> 'f cell list" where
  "first_seen_values s =
     map (\<lambda>i. s ! i) (filter (\<lambda>i. s ! i \<noteq> NaN \<and> (\<forall>j<i. s ! j \<noteq> s ! i)) [0..<length s])"

text \<open>
  \<^verbatim>\<open>Series.isin(values)\<close> is a boolean mask. A NaN entry is in \<open>values\<close> only when
  \<open>values\<close> holds NaN, as in pandas. Cells of different kinds are different values.
\<close>

definition isin :: "'f series \<Rightarrow> 'f cell list \<Rightarrow> bool list" where
  "isin s vals = map (\<lambda>v. v \<in> set vals) s"

text \<open>\<^verbatim>\<open>df[mask]\<close> keeps, in every column, the entries where the mask is true.\<close>

definition mask_series :: "'a list \<Rightarrow> bool list \<Rightarrow> 'a list" where
  "mask_series s keep = map fst (filter snd (zip s keep))"

definition mask_select :: "'f dataframe \<Rightarrow> bool list \<Rightarrow> 'f dataframe" where
  "mask_select df keep = map (\<lambda>(c, s). (c, mask_series s keep)) df"

text \<open>\<^verbatim>\<open>filtered_df[filtered_df[col].isin(selected)]\<close>\<close>

definition filter_isin :: "'f dataframe \<Rightarrow> string \<Rightarrow> 'f cell list \<Rightarrow> py_error + 'f dataframe" where
  "filter_isin df col selected =
     (case getitem df col of
        Inl e \<Rightarrow> Inl e
      | Inr s \<Rightarrow> Inr (mask_select df (isin s selected)))"

text \<open>
  Lines 49 to 55 of the script. The three selections are what the multiselect widgets
  return: lists of chosen options. \<^verbatim>\<open>if selected_colors:\<close> is true for a non-empty
  list.
\<close>

definition filtered_df ::
  "'f dataframe \<Rightarrow> 'f cell list \<Rightarrow> 'f cell list \<Rightarrow> 'f cell list \<Rightarrow> py_error + 'f dataframe" where
  "filtered_df df selected_colors selected_ages selected_shifts =
     (case (if selected_colors \<noteq> [] then filter_isin df ''Primary_Fur_Color'' selected_colors
            else Inr df) of
        Inl e \<Rightarrow> Inl e
      | Inr d1 \<Rightarrow>
          (case (if selected_ages \<noteq> [] then filter_isin d1 ''Age'' selected_ages else Inr d1) of
             Inl e \<Rightarrow> Inl e
           | Inr d2 \<Rightarrow>
               (if selected_shifts \<noteq> [] then filter_isin d2 ''Shift'' selected_shifts
                else Inr d2)))"

section \<open>Metrics and chart series\<close>

text \<open>\<^verbatim>\<open>len(filtered_df[filtered_df[col] == value])\<close>; \<open>NaN == value\<close> is false.\<close>

definition eq_mask :: "'f series \<Rightarrow> 'f cell \<Rightarrow> bool list" where
  "eq_mask s v = map (\<lambda>x. x \<noteq> NaN \<and> x = v) s"

definition count_where_equals :: "'f dataframe \<Rightarrow> string \<Rightarrow> 'f cell \<Rightarrow> py_error + nat" where
  "count_where_equals df col v =
     (case getitem df col of
        Inl e \<Rightarrow> Inl e
      | Inr s \<Rightarrow> Inr (len_df (mask_select df (eq_mask s v))))"

definition adult_count :: "'f dataframe \<Rightarrow> py_error + nat" where
  "adult_count df = count_where_equals df ''Age'' (StrV ''Adult'')"

definition gray_count :: "'f dataframe \<Rightarrow> py_error + nat" where
  "gray_count df = count_where_equals df ''Primary_Fur_Color'' (StrV ''Gray'')"

text \<open>
  \<^verbatim>\<open>Series.sum()\<close> of a column of booleans and integers: \<open>True\<close> counts 1, \<open>False\<close>
  counts 0, NaN is skipped. Over strings or floats the sum is no integer (pandas
  concatenates the strings, adds the floats, or raises on a mix); the model gives
  \<open>TypeError\<close> for all of these.
\<close>

fun series_sum :: "'f series \<Rightarrow> py_error + int" where
  "series_sum [] = Inr 0"
| "series_sum (v # vs) =
     (case series_sum vs of
        Inl e \<Rightarrow> Inl e
      | Inr n \<Rightarrow>
          (case v of
             BoolV b \<Rightarrow> Inr ((if b then 1 else 0) + n)
           | IntV i \<Rightarrow> Inr (i + n)
           | NaN \<Rightarrow> Inr n
           | _ \<Rightarrow> Inl TypeError))"

text \<open>\<^verbatim>\<open>[filtered_df[c].sum() for c in cols]\<close>: one sum per name, in the order of the names.\<close>

fun sum_columns :: "'f dataframe \<Rightarrow> string list \<Rightarrow> py_error + int list" where
  "sum_columns df [] = Inr []"
| "sum_columns df (c # cs) =
     (case getitem df c of
        Inl e \<Rightarrow> Inl e
      | Inr s \<Rightarrow>
          (case series_sum s of
             Inl e \<Rightarrow> Inl e
           | Inr n \<Rightarrow>
               (case sum_columns df cs of
                  Inl e \<Rightarrow> Inl e
                | Inr ns \<Rightarrow> Inr (n # ns))))"

definition activities :: "string list" where
  "activities = [''Running'', ''Chasing'', ''Climbing'', ''Eating'', ''Foraging'']"

definition vocalizations :: "string list" where
  "vocalizations = [''Kuks'', ''Quaas'', ''Moans'']"

definition activity_counts :: "'f dataframe \<Rightarrow> py_error + int list" where
  "activity_counts df = sum_columns df activities"

definition vocal_counts :: "'f dataframe \<Rightarrow> py_error + int list" where
  "vocal_counts df = sum_columns df vocalizations"

text \<open>The number of \<open>True\<close> entries of a column.\<close>

definition true_count :: "'f series \<Rightarrow> int" where
  "true_count s = int (length (filter (\<lambda>v. v = BoolV True) s))"

section \<open>A numeric parser for plain decimal text\<close>

text \<open>
  The examples below need a concrete parser in the place of \<open>parse_num\<close>. This one
  reads an optional sign, digits and an optional fraction, and gives the exact value;
  on such text \<^verbatim>\<open>pd.to_numeric\<close> gives the floating-point number nearest to it.
\<close>

definition digit_val :: "char \<Rightarrow> nat option" where
  "digit_val c = map_of (zip ''0123456789'' [0, 1, 2, 3, 4, 5, 6, 7, 8, 9]) c"

fun nat_of_digits :: "nat \<Rightarrow> string \<Rightarrow> nat option" where
  "nat_of_digits acc [] = Some acc"
| "nat_of_digits acc (c # cs) =
     (case digit_val c of None \<Rightarrow> None | Some d \<Rightarrow> nat_of_digits (10 * acc + d) cs)"

definition parse_unsigned :: "string \<Rightarrow> rat option" where
  "parse_unsigned s =
     (let whole = takeWhile (\<lambda>c. c \<noteq> CHR ''.'') s;
          frac = drop 1 (dropWhile (\<lambda>c. c \<noteq> CHR ''.'') s)
      in if whole = [] \<and> frac = [] then None
         else (case nat_of_digits 0 (whole @ frac) of
                 None \<Rightarrow> None
               | Some m \<Rightarrow> Some (of_nat m / 10 ^ length frac)))"

definition parse_decimal :: "string \<Rightarrow> rat option" where
  "parse_decimal s =
     (if s \<noteq> [] \<and> hd s = CHR ''-'' then map_option uminus (parse_unsigned (tl s))
      else if s \<noteq> [] \<and> hd s = CHR ''+'' then parse_unsigned (tl s)
      else parse_unsigned s)"

section \<open>Example tables\<close>

text \<open>
  A source with the two coordinate columns, the filter columns and two of the flag
  columns, and the table that \<open>load_data\<close> makes of it.
\<close>

definition raw_table :: "rat dataframe" where
  "raw_table =
     [(''X'', [StrV ''-73,9'', StrV ''N/A'', NaN]),
      (''Y'', [StrV ''40.7'', StrV ''40,8'', StrV '''']),
      (''Age'', [StrV ''Adult'', NaN, StrV ''Juvenile'']),
      (''Primary_Fur_Color'', [StrV ''Gray'', StrV ''Black'', NaN]),
      (''Shift'', [StrV ''AM'', StrV ''PM'', StrV ''AM'']),
      (''Eating'', [StrV ''true'', StrV ''FALSE'', NaN]),
      (''Climbing'', [BoolV True, BoolV False, BoolV True])]"

definition loaded_table :: "rat dataframe" where
  "loaded_table =
     [(''X'', [FloatV (-73.9), NaN, NaN]),
      (''Y'', [FloatV 40.7, FloatV 40.8, NaN]),
      (''Age'', [StrV ''Adult'', NaN, StrV ''Juvenile'']),
      (''Primary_Fur_Color'', [StrV ''Gray'', StrV ''Black'', NaN]),
      (''Shift'', [StrV ''AM'', StrV ''PM'', StrV ''AM'']),
      (''Eating'', [BoolV True, BoolV False, BoolV False]),
      (''Climbing'', [BoolV True, BoolV False, BoolV True])]"

text \<open>
  \<open>raw_table\<close> holds no float, so Python's \<open>str\<close> on a float is never called on it;
  the examples pass this function in its place.
\<close>

definition unused_float_str :: "rat \<Rightarrow> string" where
  "unused_float_str x = ''''"

text \<open>A filtered view of ten rows: three squirrels climb, all ten eat.\<close>

definition activity_table :: "rat dataframe" where
  "activity_table =
     [(''Climbing'', [BoolV True, BoolV False, BoolV True, BoolV False, BoolV False,
                      BoolV True, BoolV False, BoolV False, BoolV False, BoolV False]),
      (''Eating'', [BoolV True, BoolV True, BoolV True, BoolV True, BoolV True,
                    BoolV True, BoolV True, BoolV True, BoolV True, BoolV True])]"

text \<open>A table without missing values in the three filter columns.\<close>

definition activity_choice_table :: "rat dataframe" where
  "activity_choice_table =
     [(''Primary_Fur_Color'', [StrV ''Gray'', StrV ''Black'', StrV ''Gray'']),
      (''Age'', [StrV ''Adult'', StrV ''Adult'', StrV ''Juvenile'']),
      (''Shift'', [StrV ''AM'', StrV ''PM'', StrV ''AM''])]"

section \<open>Facts about the loader\<close>

lemma upper_char_T: "upper_char c = CHR ''T'' \<longleftrightarrow> c = CHR ''t'' \<or> c = CHR ''T''"
  by (auto simp: upper_char_def split: if_splits)
lemma upper_char_R: "upper_char c = CHR ''R'' \<longleftrightarrow> c = CHR ''r'' \<or> c = CHR ''R''"
  by (auto simp: upper_char_def split: if_splits)
lemma upper_char_U: "upper_char c = CHR ''U'' \<longleftrightarrow> c = CHR ''u'' \<or> c = CHR ''U''"
  by (auto simp: upper_char_def split: if_splits)
lemma upper_char_E: "upper_char c = CHR ''E'' \<longleftrightarrow> c = CHR ''e'' \<or> c = CHR ''E''"
  by (auto simp: upper_char_def split: if_splits)

lemma map_eq_four:
  "map f s = [w, x, y, z] \<longleftrightarrow>
     (\<exists>a b c d. s = [a, b, c, d] \<and> f a = w \<and> f b = x \<and> f c = y \<and> f d = z)"
  by (auto simp: map_eq_Cons_conv)

lemma upper_TRUE_iff:
  "upper s = ''TRUE'' \<longleftrightarrow>
     (\<exists>a b c d. s = [a, b, c, d] \<and> (a = CHR ''t'' \<or> a = CHR ''T'') \<and> (b = CHR ''r'' \<or> b = CHR ''R'')
        \<and> (c = CHR ''u'' \<or> c = CHR ''U'') \<and> (d = CHR ''e'' \<or> d = CHR ''E''))"
  unfolding upper_def map_eq_four
  by (simp only: upper_char_T upper_char_R upper_char_U upper_char_E)

lemma digit_char_in: "d < 10 \<Longrightarrow> digit_char d \<in> set ''0123456789''"
  unfolding digit_char_def by (rule nth_mem) simp

lemma str_nat_hd: "str_nat n \<noteq> [] \<and> hd (str_nat n) \<in> set ''0123456789''"
proof (induction n rule: str_nat.induct)
  case (1 n)
  show ?case
  proof (cases "n < 10")
    case True
    then show ?thesis using digit_char_in[of n] by (subst (1 2) str_nat.simps) simp
  next
    case False
    then show ?thesis using 1 by (subst (1 2) str_nat.simps) simp
  qed
qed

lemma upper_str_int: "upper (str_int i) \<noteq> ''TRUE''"
proof -
  have "hd (str_int i) \<in> set ''-0123456789''" "str_int i \<noteq> []"
    using str_nat_hd[of "nat i"] str_nat_hd[of "nat (- i)"] by (auto simp: str_int_def)
  then show ?thesis
    by (cases "str_int i") (auto simp: upper_def upper_char_def)
qed

lemma coerce_flag_idem: "coerce_flag fs (coerce_flag fs v) = coerce_flag fs v"
  by (simp add: coerce_flag_def upper_def upper_char_def)

lemma map_of_setitem: "map_of (setitem df c s) = (map_of df)(c \<mapsto> s)"
  by (simp add: setitem_def update_conv')

lemma keys_setitem: "map_of df c = Some t \<Longrightarrow> map fst (setitem df c s) = map fst df"
  by (auto simp: setitem_def update_keys dest: map_of_SomeD intro: rev_image_eqI)

lemma map_of_convert_bool_cols:
  "map_of (convert_bool_cols fs cols df) c =
     (if c \<in> set cols then map_option (map (coerce_flag fs)) (map_of df c) else map_of df c)"
proof (induction cols arbitrary: df)
  case Nil
  then show ?case by simp
next
  case (Cons a cols)
  show ?case
    by (cases "map_of df a") (auto simp: Cons map_of_setitem coerce_flag_idem)
qed

lemma keys_convert_bool_cols: "map fst (convert_bool_cols fs cols df) = map fst df"
proof (induction cols arbitrary: df)
  case Nil
  then show ?case by simp
next
  case (Cons a cols)
  show ?case
    by (cases "map_of df a") (simp_all add: Cons keys_setitem)
qed

lemma XY_not_flags: "''X'' \<notin> set bool_cols" "''Y'' \<notin> set bool_cols"
  by (simp_all add: bool_cols_def)

lemma load_data_frame:
  assumes "map_of df ''X'' = Some xs" and "map_of df ''Y'' = Some ys"
  shows "load_data fs pn (Inr df) =
           Inr (convert_bool_cols fs bool_cols
                  (setitem (setitem df ''X'' (map (coerce_coord fs pn) xs)) ''Y''
                     (map (coerce_coord fs pn) ys)))"
  using assms by (simp add: load_data_def getitem_def map_of_setitem Let_def)

lemma load_data_columns:
  assumes "map_of df ''X'' = Some xs" and "map_of df ''Y'' = Some ys"
  shows "\<exists>df'. load_data fs pn (Inr df) = Inr df' \<and> map fst df' = map fst df \<and>
           (\<forall>c. map_of df' c = map_option (normalize_col fs pn c) (map_of df c))"
proof -
  let ?d1 = "setitem df ''X'' (map (coerce_coord fs pn) xs)"
  let ?d2 = "setitem ?d1 ''Y'' (map (coerce_coord fs pn) ys)"
  let ?d3 = "convert_bool_cols fs bool_cols ?d2"
  have y1: "map_of ?d1 ''Y'' = Some ys"
    using assms(2) by (simp add: map_of_setitem)
  have keys: "map fst ?d3 = map fst df"
    using keys_setitem[OF y1] keys_setitem[OF assms(1)] by (simp add: keys_convert_bool_cols)
  have cols: "map_of ?d3 c = map_option (normalize_col fs pn c) (map_of df c)" for c
    using assms XY_not_flags
    by (cases "map_of df c") (auto simp: map_of_convert_bool_cols map_of_setitem normalize_col_def)
  show ?thesis
    using load_data_frame[OF assms, of fs pn] keys cols by simp
qed

lemma load_data_Inr_iff:
  "(\<exists>df'. load_data fs pn (Inr df) = Inr df') \<longleftrightarrow>
     map_of df ''X'' \<noteq> None \<and> map_of df ''Y'' \<noteq> None"
  by (auto simp: load_data_def getitem_def map_of_setitem Let_def split: option.splits)

lemma coerce_flag_examples: "coerce_flag fs (StrV ''true'') = BoolV True" "coerce_flag fs (StrV ''TRUE'') = BoolV True"
  "coerce_flag fs (StrV ''True'') = BoolV True"
  "coerce_flag fs (StrV ''FALSE'') = BoolV False" "coerce_flag fs (StrV '''') = BoolV False"
  "coerce_flag fs (StrV ''1'') = BoolV False" "coerce_flag fs (StrV ''yes'') = BoolV False"
  "coerce_flag fs NaN = BoolV False"
  "coerce_flag fs (BoolV b) = BoolV b"
  by (simp_all add: coerce_flag_def upper_TRUE_iff)

lemma coerce_flag_IntV: "coerce_flag fs (IntV i) = BoolV False"
  by (simp add: coerce_flag_def upper_str_int)

lemma coerce_coord_examples:
  "coerce_coord fs parse_decimal (StrV ''-73,9'') = FloatV (-73.9)"
  "coerce_coord fs parse_decimal (StrV ''N/A'') = NaN"
  "coerce_coord fs parse_decimal NaN = NaN"
  "coerce_coord fs parse_decimal (StrV ''40.7'') = FloatV 40.7"
  "coerce_coord fs parse_decimal (StrV ''40,8'') = FloatV 40.8"
  "coerce_coord fs parse_decimal (StrV '''') = NaN"
  by (simp_all add: coerce_coord_def str_replace_def to_numeric_def parse_decimal_def
      parse_unsigned_def digit_val_def)

lemma load_raw_table:
  "load_data unused_float_str parse_decimal (Inr raw_table) = Inr loaded_table"
proof -
  have x: "map_of raw_table ''X'' = Some [StrV ''-73,9'', StrV ''N/A'', NaN]"
    and y: "map_of raw_table ''Y'' = Some [StrV ''40.7'', StrV ''40,8'', StrV '''']"
    by (simp_all add: raw_table_def)
  show ?thesis
    unfolding load_data_frame[OF x y]
    by (simp add: raw_table_def loaded_table_def setitem_def bool_cols_def
        coerce_coord_examples coerce_flag_examples)
qed

lemma load_data_InrD:
  assumes "load_data fs pn (Inr df) = Inr df'"
  shows "map fst df' = map fst df"
    and "map_of df' c = map_option (normalize_col fs pn c) (map_of df c)"
proof -
  from assms have "\<exists>d. load_data fs pn (Inr df) = Inr d" by blast
  then obtain xs ys where xy: "map_of df ''X'' = Some xs" "map_of df ''Y'' = Some ys"
    unfolding load_data_Inr_iff by auto
  from load_data_columns[OF xy, of fs pn] assms
  show "map fst df' = map fst df"
    and "map_of df' c = map_option (normalize_col fs pn c) (map_of df c)"
    by auto
qed

lemma normalize_col_flag:
  "col \<in> set bool_cols \<Longrightarrow> normalize_col fs pn col s = map (coerce_flag fs) s"
  using XY_not_flags by (auto simp: normalize_col_def)



section \<open>The loader: claims\<close>

text \<open>
  C3. For every raw value of a declared flag column that the source has, the loaded
  table holds \<open>True\<close> if and only if the upper-case text of the value is \<open>TRUE\<close>, and
  \<open>False\<close> for every other value: the texts \<open>true\<close>, \<open>TRUE\<close>, \<open>True\<close> give
  \<open>True\<close>; \<open>FALSE\<close>, the empty text, \<open>1\<close>, other text, a missing value and an
  integer give \<open>False\<close>.
\<close>

theorem load_data_flag_normalized:
  assumes "load_data fs pn (Inr df) = Inr df'"
    and "col \<in> set bool_cols"
    and "map_of df col = Some s"
  shows "map_of df' col = Some (map (\<lambda>x. BoolV (upper (py_str fs x) = ''TRUE'')) s) \<and>
         map (\<lambda>x. BoolV (upper (py_str fs x) = ''TRUE''))
           [StrV ''true'', StrV ''TRUE'', StrV ''True'', StrV ''FALSE'', StrV '''', StrV ''1'',
            StrV ''yes'', NaN, IntV i, BoolV True, BoolV False] =
           [BoolV True, BoolV True, BoolV True, BoolV False, BoolV False, BoolV False,
            BoolV False, BoolV False, BoolV False, BoolV True, BoolV False]"
proof -
  have "map_of df' col = Some (map (coerce_flag fs) s)"
    using load_data_InrD(2)[OF assms(1), of col] assms(2,3) by (simp add: normalize_col_flag)
  moreover have "map (coerce_flag fs)
           [StrV ''true'', StrV ''TRUE'', StrV ''True'', StrV ''FALSE'', StrV '''', StrV ''1'',
            StrV ''yes'', NaN, IntV i, BoolV True, BoolV False] =
           [BoolV True, BoolV True, BoolV True, BoolV False, BoolV False, BoolV False,
            BoolV False, BoolV False, BoolV False, BoolV True, BoolV False]"
    by (simp add: coerce_flag_examples coerce_flag_IntV)
  moreover have "coerce_flag fs = (\<lambda>x. BoolV (upper (py_str fs x) = ''TRUE''))"
    by (rule ext) (simp add: coerce_flag_def)
  ultimately show ?thesis
    by simp
qed

theorem load_data_flag_normalized_witness:
  "load_data unused_float_str parse_decimal (Inr raw_table) = Inr loaded_table \<and>
   ''Eating'' \<in> set bool_cols \<and>
   map_of raw_table ''Eating'' = Some [StrV ''true'', StrV ''FALSE'', NaN] \<and>
   map_of loaded_table ''Eating'' = Some [BoolV True, BoolV False, BoolV False]"
proof -
  have a: "''Eating'' \<in> set bool_cols" by (simp add: bool_cols_def)
  have b: "map_of raw_table ''Eating'' = Some [StrV ''true'', StrV ''FALSE'', NaN]"
    by (simp add: raw_table_def)
  show ?thesis
    using load_data_flag_normalized[OF load_raw_table a b] load_raw_table a b
    by (simp add: upper_TRUE_iff)
qed

text \<open>
  C4. When the source has the columns X and Y, \<open>load_data\<close> returns a table whose
  X and Y entries are the raw entries printed as text, with every comma replaced by a
  period, and parsed as numbers; an entry whose text does not parse is the missing
  value, not an error and not a number. With the decimal parser, \<open>-73,9\<close> becomes
  -73.9 and \<open>N/A\<close> becomes missing.
\<close>

theorem load_data_coordinates:
  assumes "map_of df ''X'' = Some xs" and "map_of df ''Y'' = Some ys"
  shows "\<exists>df'. load_data fs pn (Inr df) = Inr df' \<and>
           map_of df' ''X'' =
             Some (map (\<lambda>v. case pn (str_replace CHR '','' CHR ''.'' (py_str fs v)) of
                               None \<Rightarrow> NaN | Some x \<Rightarrow> FloatV x) xs) \<and>
           map_of df' ''Y'' =
             Some (map (\<lambda>v. case pn (str_replace CHR '','' CHR ''.'' (py_str fs v)) of
                               None \<Rightarrow> NaN | Some x \<Rightarrow> FloatV x) ys) \<and>
           coerce_coord fs' parse_decimal (StrV ''-73,9'') = FloatV (-73.9) \<and>
           coerce_coord fs' parse_decimal (StrV ''N/A'') = NaN"
proof -
  have eq: "coerce_coord fs pn =
      (\<lambda>v. case pn (str_replace CHR '','' CHR ''.'' (py_str fs v)) of
              None \<Rightarrow> NaN | Some x \<Rightarrow> FloatV x)"
    by (rule ext) (simp add: coerce_coord_def to_numeric_def)
  from load_data_columns[OF assms, of fs pn] obtain df' where
    l: "load_data fs pn (Inr df) = Inr df'" and
    c: "\<And>c. map_of df' c = map_option (normalize_col fs pn c) (map_of df c)"
    by blast
  have "map_of df' ''X'' = Some (map (coerce_coord fs pn) xs)"
    "map_of df' ''Y'' = Some (map (coerce_coord fs pn) ys)"
    using c assms by (simp_all add: normalize_col_def)
  then show ?thesis
    using l unfolding eq by (simp add: coerce_coord_examples)
qed

theorem load_data_coordinates_witness:
  "map_of raw_table ''X'' = Some [StrV ''-73,9'', StrV ''N/A'', NaN] \<and>
   map_of raw_table ''Y'' = Some [StrV ''40.7'', StrV ''40,8'', StrV ''''] \<and>
   load_data unused_float_str parse_decimal (Inr raw_table) = Inr loaded_table \<and>
   map_of loaded_table ''X'' = Some [FloatV (-73.9), NaN, NaN] \<and>
   map_of loaded_table ''Y'' = Some [FloatV 40.7, FloatV 40.8, NaN]"
proof -
  have x: "map_of raw_table ''X'' = Some [StrV ''-73,9'', StrV ''N/A'', NaN]"
    and y: "map_of raw_table ''Y'' = Some [StrV ''40.7'', StrV ''40,8'', StrV '''']"
    by (simp_all add: raw_table_def)
  from load_data_coordinates[OF x y, of unused_float_str parse_decimal]
  have "map_of raw_table ''X'' \<noteq> None" using x by simp
  then show ?thesis
    using x y load_raw_table by (simp add: loaded_table_def)
qed

text \<open>
  C5, as stated: every declared flag field of every row of a loaded table is \<open>True\<close>
  or \<open>False\<close>, never absent. It fails for a source without the column \<open>Tail_flags\<close>:
  the load succeeds and the loaded table has no such column either.
\<close>

theorem load_data_flag_absent_counterexample:
  "load_data unused_float_str parse_decimal (Inr raw_table) = Inr loaded_table \<and>
   ''Tail_flags'' \<in> set bool_cols \<and>
   getitem loaded_table ''Tail_flags'' = Inl (KeyError ''Tail_flags'')"
  using load_raw_table by (simp add: bool_cols_def getitem_def loaded_table_def)

text \<open>
  C5, amended: every declared flag column that the source has is, in the loaded table,
  a column of the same length whose entries are all \<open>True\<close> or \<open>False\<close>; a declared
  flag column that the source lacks is absent from the loaded table too.
\<close>

theorem load_data_flags_boolean:
  assumes "load_data fs pn (Inr df) = Inr df'"
    and "col \<in> set bool_cols"
  shows "(map_of df col = None \<longrightarrow> map_of df' col = None) \<and>
         (\<forall>s. map_of df col = Some s \<longrightarrow>
            (\<exists>s'. map_of df' col = Some s' \<and> length s' = length s \<and>
                  (\<forall>v \<in> set s'. v = BoolV True \<or> v = BoolV False)))"
proof -
  have "map_of df' col = map_option (map (coerce_flag fs)) (map_of df col)"
    using load_data_InrD(2)[OF assms(1), of col] assms(2)
    by (cases "map_of df col") (simp_all add: normalize_col_flag)
  then show ?thesis
    by (auto simp: coerce_flag_def)
qed

theorem load_data_flags_boolean_witness:
  "load_data unused_float_str parse_decimal (Inr raw_table) = Inr loaded_table \<and>
   ''Climbing'' \<in> set bool_cols \<and> ''Tail_flags'' \<in> set bool_cols \<and>
   map_of raw_table ''Climbing'' = Some [BoolV True, BoolV False, BoolV True] \<and>
   map_of loaded_table ''Climbing'' = Some [BoolV True, BoolV False, BoolV True] \<and>
   map_of raw_table ''Tail_flags'' = None \<and> map_of loaded_table ''Tail_flags'' = None"
proof -
  have a: "''Climbing'' \<in> set bool_cols" and t: "''Tail_flags'' \<in> set bool_cols"
    by (simp_all add: bool_cols_def)
  have b: "map_of raw_table ''Climbing'' = Some [BoolV True, BoolV False, BoolV True]"
    and n: "map_of raw_table ''Tail_flags'' = None"
    by (simp_all add: raw_table_def)
  from load_data_flags_boolean[OF load_raw_table t] n
  have "map_of loaded_table ''Tail_flags'' = None"
    by blast
  moreover from load_data_flags_boolean[OF load_raw_table a] b
  have "\<exists>s'. map_of loaded_table ''Climbing'' = Some s'"
    by blast
  ultimately show ?thesis
    using load_raw_table a t b n by (simp add: loaded_table_def)
qed

text \<open>
  C8. A source that has the required columns X and Y and lacks a declared flag column
  still loads: the result has the header of the source, the missing flag column stays
  missing, and every column of the source is normalized as usual.
\<close>

theorem load_data_missing_flag_column:
  assumes "map_of df ''X'' = Some xs" and "map_of df ''Y'' = Some ys"
    and "col \<in> set bool_cols" and "map_of df col = None"
  shows "\<exists>df'. load_data fs pn (Inr df) = Inr df' \<and> map fst df' = map fst df \<and>
           map_of df' col = None \<and>
           (\<forall>c s. map_of df c = Some s \<longrightarrow> map_of df' c = Some (normalize_col fs pn c s))"
proof -
  from load_data_columns[OF assms(1,2), of fs pn] obtain df' where
    l: "load_data fs pn (Inr df) = Inr df'" "map fst df' = map fst df" and
    c: "\<And>c. map_of df' c = map_option (normalize_col fs pn c) (map_of df c)"
    by blast
  show ?thesis
    using l c assms(4) by simp
qed

theorem load_data_missing_flag_column_witness:
  "map_of raw_table ''X'' = Some [StrV ''-73,9'', StrV ''N/A'', NaN] \<and>
   map_of raw_table ''Y'' = Some [StrV ''40.7'', StrV ''40,8'', StrV ''''] \<and>
   ''Moans'' \<in> set bool_cols \<and> map_of raw_table ''Moans'' = None \<and>
   load_data unused_float_str parse_decimal (Inr raw_table) = Inr loaded_table \<and>
   map fst loaded_table = map fst raw_table \<and> map_of loaded_table ''Moans'' = None"
proof -
  have x: "map_of raw_table ''X'' = Some [StrV ''-73,9'', StrV ''N/A'', NaN]"
    and y: "map_of raw_table ''Y'' = Some [StrV ''40.7'', StrV ''40,8'', StrV '''']"
    and n: "map_of raw_table ''Moans'' = None"
    by (simp_all add: raw_table_def)
  have m: "''Moans'' \<in> set bool_cols" by (simp add: bool_cols_def)
  from load_data_missing_flag_column[OF x y m n, of unused_float_str parse_decimal]
  obtain df' where "load_data unused_float_str parse_decimal (Inr raw_table) = Inr df'"
    "map fst df' = map fst raw_table" "map_of df' ''Moans'' = None"
    by blast
  then show ?thesis
    using x y m n load_raw_table by simp
qed



section \<open>Facts about masks and the filtered frame\<close>

lemma wf_frame_length:
  "wf_frame df \<Longrightarrow> map_of df c = Some s \<Longrightarrow> length s = len_df df"
  by (auto simp: wf_frame_def list_all_iff dest!: map_of_SomeD)

lemma map_of_mask_select:
  "map_of (mask_select df m) c = map_option (\<lambda>s. mask_series s m) (map_of df c)"
  unfolding mask_select_def by (induction df) auto

lemma length_mask_series:
  "length s = length m \<Longrightarrow> length (mask_series s m) = length (filter (\<lambda>b. b) m)"
  unfolding mask_series_def by (induction s m rule: list_induct2) auto

lemma len_df_mask_select:
  assumes "wf_frame df" and "map_of df c = Some s" and "length m = length s"
  shows "len_df (mask_select df m) = length (filter (\<lambda>b. b) m)"
proof (cases df)
  case Nil
  with assms(2) show ?thesis by simp
next
  case (Cons p ps)
  obtain c0 s0 where p: "p = (c0, s0)" by (cases p)
  have "map_of df c0 = Some s0" using Cons p by simp
  then have "length s0 = len_df df" using assms(1) by (rule wf_frame_length[rotated])
  moreover have "length s = len_df df" using assms(1,2) by (rule wf_frame_length)
  ultimately have "length s0 = length m" using assms(3) by simp
  then show ?thesis
    using Cons p by (simp add: len_df_def mask_select_def length_mask_series)
qed

lemma wf_mask_select:
  assumes "wf_frame df" and "length m = len_df df"
  shows "wf_frame (mask_select df m)"
proof -
  have all: "\<forall>(c, s) \<in> set df. length s = length m"
    using assms by (auto simp: wf_frame_def list_all_iff)
  have "\<forall>(c, s) \<in> set (mask_select df m). length s = length (filter (\<lambda>b. b) m)"
    using all by (auto simp: mask_select_def length_mask_series)
  moreover have "df \<noteq> [] \<Longrightarrow> len_df (mask_select df m) = length (filter (\<lambda>b. b) m)"
    using all by (cases df) (auto simp: len_df_def mask_select_def length_mask_series)
  ultimately show ?thesis
    by (cases "df = []") (auto simp: wf_frame_def list_all_iff mask_select_def)
qed

lemma mask_series_map: "mask_series (map f s) m = map f (mask_series s m)"
  unfolding mask_series_def
proof (induction s arbitrary: m)
  case Nil
  then show ?case by simp
next
  case (Cons a s)
  then show ?case by (cases m) auto
qed

lemma mask_series_twice:
  "length s = length m1 \<Longrightarrow> length m1 = length m2 \<Longrightarrow>
   mask_series (mask_series s m1) (mask_series m2 m1) = mask_series s (map2 (\<and>) m1 m2)"
  unfolding mask_series_def
  by (induction s m1 m2 rule: list_induct3) auto

lemma mask_series_all:
  "length s = length m \<Longrightarrow> \<forall>b \<in> set m. b \<Longrightarrow> mask_series s m = s"
  unfolding mask_series_def by (induction s m rule: list_induct2) auto

lemma mask_select_twice:
  assumes "wf_frame df" and "length m1 = len_df df" and "length m2 = len_df df"
  shows "mask_select (mask_select df m1) (mask_series m2 m1) = mask_select df (map2 (\<and>) m1 m2)"
proof -
  have "\<forall>(c, s) \<in> set df. length s = length m1"
    using assms by (auto simp: wf_frame_def list_all_iff)
  then show ?thesis
    using assms(2,3) by (auto simp: mask_select_def mask_series_twice)
qed

lemma mask_select_all:
  assumes "wf_frame df" and "length m = len_df df" and "\<forall>b \<in> set m. b"
  shows "mask_select df m = df"
proof -
  have "\<forall>(c, s) \<in> set df. length s = length m"
    using assms by (auto simp: wf_frame_def list_all_iff)
  then have "map (\<lambda>(c, s). (c, mask_series s m)) df = map (\<lambda>p. p) df"
    using assms(3) by (intro map_cong) (auto simp: mask_series_all)
  then show ?thesis by (simp add: mask_select_def)
qed

lemma filter_step:
  assumes "wf_frame d" and "map_of d c = Some s"
  shows "(if sel \<noteq> [] then filter_isin d c sel else Inr d) =
           Inr (mask_select d (map (\<lambda>v. sel = [] \<or> v \<in> set sel) s))"
proof (cases "sel = []")
  case True
  have "mask_select d (map (\<lambda>v. True) s) = d"
    using assms by (intro mask_select_all) (auto simp: wf_frame_length)
  then show ?thesis using True by simp
next
  case False
  then show ?thesis using assms(2) by (simp add: filter_isin_def getitem_def isin_def)
qed

lemma map2_selected:
  "length colors = length ages_col \<Longrightarrow> length ages_col = length shifts_col \<Longrightarrow>
   map2 (\<and>) (map2 (\<and>) (map (\<lambda>v. cs = [] \<or> v \<in> set cs) colors)
                         (map (\<lambda>v. as = [] \<or> v \<in> set as) ages_col))
             (map (\<lambda>v. ss = [] \<or> v \<in> set ss) shifts_col) =
   map (\<lambda>(color, age, shift).
          (cs = [] \<or> color \<in> set cs) \<and> (as = [] \<or> age \<in> set as) \<and>
          (ss = [] \<or> shift \<in> set ss))
     (zip colors (zip ages_col shifts_col))"
  by (induction colors ages_col shifts_col rule: list_induct3) auto

lemma filtered_df_rows:
  assumes wf: "wf_frame df"
    and c: "map_of df ''Primary_Fur_Color'' = Some colors"
    and a: "map_of df ''Age'' = Some ages_col"
    and h: "map_of df ''Shift'' = Some shifts_col"
  shows "filtered_df df cs as ss =
           Inr (mask_select df
                  (map (\<lambda>(color, age, shift).
                          (cs = [] \<or> color \<in> set cs) \<and> (as = [] \<or> age \<in> set as) \<and>
                          (ss = [] \<or> shift \<in> set ss))
                     (zip colors (zip ages_col shifts_col))))"
proof -
  let ?m1 = "map (\<lambda>v. cs = [] \<or> v \<in> set cs) colors"
  let ?m2 = "map (\<lambda>v. as = [] \<or> v \<in> set as) ages_col"
  let ?m3 = "map (\<lambda>v. ss = [] \<or> v \<in> set ss) shifts_col"
  let ?d1 = "mask_select df ?m1"
  let ?m12 = "map2 (\<and>) ?m1 ?m2"
  let ?d2 = "mask_select df ?m12"
  have len: "length colors = len_df df" "length ages_col = len_df df" "length shifts_col = len_df df"
    using wf c a h by (auto dest: wf_frame_length)
  have s1: "(if cs \<noteq> [] then filter_isin df ''Primary_Fur_Color'' cs else Inr df) = Inr ?d1"
    by (rule filter_step[OF wf c])
  have wf1: "wf_frame ?d1" by (rule wf_mask_select[OF wf]) (simp add: len)
  have a1: "map_of ?d1 ''Age'' = Some (mask_series ages_col ?m1)"
    by (simp add: map_of_mask_select a)
  have "(if as \<noteq> [] then filter_isin ?d1 ''Age'' as else Inr ?d1) =
          Inr (mask_select ?d1 (map (\<lambda>v. as = [] \<or> v \<in> set as) (mask_series ages_col ?m1)))"
    by (rule filter_step[OF wf1 a1])
  also have "mask_select ?d1 (map (\<lambda>v. as = [] \<or> v \<in> set as) (mask_series ages_col ?m1)) = ?d2"
    using mask_select_twice[OF wf, of ?m1 ?m2] len by (simp add: mask_series_map)
  finally have s2: "(if as \<noteq> [] then filter_isin ?d1 ''Age'' as else Inr ?d1) = Inr ?d2" .
  have wf2: "wf_frame ?d2" by (rule wf_mask_select[OF wf]) (simp add: len)
  have h2: "map_of ?d2 ''Shift'' = Some (mask_series shifts_col ?m12)"
    by (simp add: map_of_mask_select h)
  have "(if ss \<noteq> [] then filter_isin ?d2 ''Shift'' ss else Inr ?d2) =
          Inr (mask_select ?d2 (map (\<lambda>v. ss = [] \<or> v \<in> set ss) (mask_series shifts_col ?m12)))"
    by (rule filter_step[OF wf2 h2])
  also have "mask_select ?d2 (map (\<lambda>v. ss = [] \<or> v \<in> set ss) (mask_series shifts_col ?m12)) =
      mask_select df (map2 (\<and>) ?m12 ?m3)"
    using mask_select_twice[OF wf, of ?m12 ?m3] len by (simp add: mask_series_map)
  finally have s3: "(if ss \<noteq> [] then filter_isin ?d2 ''Shift'' ss else Inr ?d2) =
      Inr (mask_select df (map2 (\<and>) ?m12 ?m3))" .
  have "filtered_df df cs as ss = Inr (mask_select df (map2 (\<and>) ?m12 ?m3))"
    unfolding filtered_df_def s1 by (simp only: sum.case s2 s3)
  then show ?thesis
    using map2_selected[of colors ages_col shifts_col cs as ss] len by simp
qed

lemma wf_loaded_table: "wf_frame loaded_table"
  by (simp add: wf_frame_def len_df_def loaded_table_def)

lemma loaded_table_columns:
  "map_of loaded_table ''Primary_Fur_Color'' = Some [StrV ''Gray'', StrV ''Black'', NaN]"
  "map_of loaded_table ''Age'' = Some [StrV ''Adult'', NaN, StrV ''Juvenile'']"
  "map_of loaded_table ''Shift'' = Some [StrV ''AM'', StrV ''PM'', StrV ''AM'']"
  by (simp_all add: loaded_table_def)

section \<open>Facts about the filter choices and the sums\<close>

lemma set_unique_from: "set (unique_from seen s) = set s - set seen"
  by (induction s arbitrary: seen) auto

lemma distinct_unique_from: "distinct (unique_from seen s)"
  by (induction s arbitrary: seen) (auto simp: set_unique_from)

lemma unique_from_dropna:
  "NaN \<in> set seen' \<Longrightarrow> set seen' = insert NaN (set seen) \<Longrightarrow>
   unique_from seen (filter (\<lambda>v. v \<noteq> NaN) s) = unique_from seen' s"
proof (induction s arbitrary: seen seen')
  case Nil
  then show ?case by simp
next
  case (Cons v s)
  have step: "unique_from (v # seen) (filter (\<lambda>v. v \<noteq> NaN) s) = unique_from (v # seen') s"
    using Cons.prems by (intro Cons.IH) auto
  have rest: "unique_from seen (filter (\<lambda>v. v \<noteq> NaN) s) = unique_from seen' s"
    using Cons.prems by (intro Cons.IH) auto
  show ?case
    using Cons.prems step rest by auto
qed

lemma series_sum_bools:
  "\<forall>v \<in> set s. v = BoolV True \<or> v = BoolV False \<Longrightarrow> series_sum s = Inr (true_count s)"
  by (induction s) (auto simp: true_count_def)

lemma filter_two_values:
  "a \<noteq> b \<Longrightarrow> length (filter (\<lambda>v. v = a) s) + length (filter (\<lambda>v. v = b) s) \<le> length s"
  by (induction s) auto

lemma upt_Suc_shift: "[0..<Suc n] = 0 # map Suc [0..<n]"
  by (simp only: upt_conv_Cons[OF zero_less_Suc] map_Suc_upt)

lemma unique_from_positions:
  "unique_from seen s =
     map (\<lambda>i. s ! i) (filter (\<lambda>i. s ! i \<notin> set seen \<and> (\<forall>j<i. s ! j \<noteq> s ! i)) [0..<length s])"
proof (induction s arbitrary: seen)
  case Nil
  then show ?case by simp
next
  case (Cons v t)
  let ?Q = "\<lambda>i. (v # t) ! i \<notin> set seen \<and> (\<forall>j<i. (v # t) ! j \<noteq> (v # t) ! i)"
  have all: "(\<forall>j<Suc i. (v # t) ! j \<noteq> t ! i) \<longleftrightarrow> v \<noteq> t ! i \<and> (\<forall>j<i. t ! j \<noteq> t ! i)" for i
    by (simp add: All_less_Suc2)
  have tail: "map (\<lambda>i. (v # t) ! i) (filter ?Q (map Suc [0..<length t])) =
        map (\<lambda>i. t ! i)
          (filter (\<lambda>i. t ! i \<notin> set seen \<and> v \<noteq> t ! i \<and> (\<forall>j<i. t ! j \<noteq> t ! i)) [0..<length t])"
    by (simp add: filter_map o_def all)
  have expand: "map (\<lambda>i. (v # t) ! i) (filter ?Q [0..<length (v # t)]) =
        (if v \<in> set seen then [] else [v]) @
        map (\<lambda>i. (v # t) ! i) (filter ?Q (map Suc [0..<length t]))"
    unfolding length_Cons upt_Suc_shift by simp
  show ?case
  proof (cases "v \<in> set seen")
    case True
    have "filter (\<lambda>i. t ! i \<notin> set seen \<and> v \<noteq> t ! i \<and> (\<forall>j<i. t ! j \<noteq> t ! i)) [0..<length t] =
          filter (\<lambda>i. t ! i \<notin> set seen \<and> (\<forall>j<i. t ! j \<noteq> t ! i)) [0..<length t]"
      using True by (intro filter_cong refl) blast
    then have "map (\<lambda>i. (v # t) ! i) (filter ?Q [0..<length (v # t)]) = unique_from seen t"
      unfolding expand tail using True Cons.IH[of seen] by simp
    then show ?thesis using True by simp
  next
    case False
    have "filter (\<lambda>i. t ! i \<notin> set seen \<and> v \<noteq> t ! i \<and> (\<forall>j<i. t ! j \<noteq> t ! i)) [0..<length t] =
          filter (\<lambda>i. t ! i \<notin> set (v # seen) \<and> (\<forall>j<i. t ! j \<noteq> t ! i)) [0..<length t]"
      by (intro filter_cong refl) auto
    then have "map (\<lambda>i. (v # t) ! i) (filter ?Q [0..<length (v # t)]) = v # unique_from (v # seen) t"
      unfolding expand tail using False Cons.IH[of "v # seen"] by simp
    then show ?thesis using False by simp
  qed
qed

lemma unique_dropna_first_seen: "unique (dropna s) = first_seen_values s"
proof -
  have "unique (dropna s) = unique_from [NaN] s"
    unfolding unique_def dropna_def by (rule unique_from_dropna) auto
  then show ?thesis
    by (simp add: unique_from_positions first_seen_values_def)
qed

lemma set_available:
  assumes "available_values df col = Inr vs" and "map_of df col = Some s"
  shows "set vs = set s - {NaN}"
proof -
  have vs: "vs = unique (dropna s)"
    using assms by (simp add: available_values_def getitem_def)
  show "set vs = set s - {NaN}"
    unfolding vs unique_def by (auto simp: set_unique_from dropna_def)
qed

lemma full_mask:
  assumes "set cs = set colors - {NaN}" and "set as = set ages_col - {NaN}"
    and "set ss = set shifts_col - {NaN}"
  shows "map (\<lambda>(color, age, shift).
            (cs = [] \<or> color \<in> set cs) \<and> (as = [] \<or> age \<in> set as) \<and> (ss = [] \<or> shift \<in> set ss))
          (zip colors (zip ages_col shifts_col)) =
         map (\<lambda>(color, age, shift).
            (dropna colors = [] \<or> color \<noteq> NaN) \<and> (dropna ages_col = [] \<or> age \<noteq> NaN) \<and>
            (dropna shifts_col = [] \<or> shift \<noteq> NaN))
          (zip colors (zip ages_col shifts_col))"
proof (rule map_cong[OF refl])
  fix r assume r: "r \<in> set (zip colors (zip ages_col shifts_col))"
  obtain x y z where xyz: "r = (x, y, z)" by (cases r) auto
  have x: "x \<in> set colors" and yz: "(y, z) \<in> set (zip ages_col shifts_col)"
    using r xyz by (auto dest: set_zip_leftD set_zip_rightD)
  have y: "y \<in> set ages_col" and z: "z \<in> set shifts_col"
    using yz by (auto dest: set_zip_leftD set_zip_rightD)
  have e: "cs = [] \<longleftrightarrow> dropna colors = []" "as = [] \<longleftrightarrow> dropna ages_col = []"
    "ss = [] \<longleftrightarrow> dropna shifts_col = []"
    using assms by (auto simp: dropna_def filter_empty_conv simp flip: set_empty)
  show "(case r of (color, age, shift) \<Rightarrow>
            (cs = [] \<or> color \<in> set cs) \<and> (as = [] \<or> age \<in> set as) \<and> (ss = [] \<or> shift \<in> set ss)) =
        (case r of (color, age, shift) \<Rightarrow>
            (dropna colors = [] \<or> color \<noteq> NaN) \<and> (dropna ages_col = [] \<or> age \<noteq> NaN) \<and>
            (dropna shifts_col = [] \<or> shift \<noteq> NaN))"
    unfolding xyz using x y z assms e by auto
qed

lemma count_where_equals_filter:
  assumes "wf_frame df" and "map_of df col = Some s"
  shows "count_where_equals df col v = Inr (length (filter (\<lambda>x. x \<noteq> NaN \<and> x = v) s))"
proof -
  have "len_df (mask_select df (eq_mask s v)) = length (filter (\<lambda>b. b) (eq_mask s v))"
    by (rule len_df_mask_select[OF assms]) (simp add: eq_mask_def)
  also have "\<dots> = length (filter (\<lambda>x. x \<noteq> NaN \<and> x = v) s)"
    by (simp add: eq_mask_def filter_map o_def)
  finally show ?thesis
    using assms(2) by (simp add: count_where_equals_def getitem_def)
qed

section \<open>Filtering and aggregation: claims\<close>

text \<open>
  C1, as stated: a selection with an empty set for some field gives an empty view. It
  fails on \<open>loaded_table\<close> with no age selected: the view keeps two of the three rows,
  and with nothing selected in any field the view is the whole table.
\<close>

theorem filtered_df_empty_selection_counterexample:
  "filtered_df loaded_table [StrV ''Gray'', StrV ''Black''] [] [StrV ''AM'', StrV ''PM''] =
     Inr [(''X'', [FloatV (-73.9), NaN]),
          (''Y'', [FloatV 40.7, FloatV 40.8]),
          (''Age'', [StrV ''Adult'', NaN]),
          (''Primary_Fur_Color'', [StrV ''Gray'', StrV ''Black'']),
          (''Shift'', [StrV ''AM'', StrV ''PM'']),
          (''Eating'', [BoolV True, BoolV False]),
          (''Climbing'', [BoolV True, BoolV False])] \<and>
   filtered_df loaded_table [] [] [] = Inr loaded_table \<and> len_df loaded_table = 3"
  by (simp add: filtered_df_def filter_isin_def getitem_def loaded_table_def mask_select_def
      mask_series_def isin_def len_df_def)

text \<open>
  C1, amended: a field whose selection is empty is left unconstrained. The view is the
  table restricted, in table order, to the rows whose value is in the selection of
  every field that has a non-empty selection; with all three selections empty it is
  the unfiltered table.
\<close>

theorem filtered_df_empty_selection:
  assumes "wf_frame df"
    and "map_of df ''Primary_Fur_Color'' = Some colors"
    and "map_of df ''Age'' = Some ages_col"
    and "map_of df ''Shift'' = Some shifts_col"
  shows "filtered_df df cs as ss =
           Inr (mask_select df
                  (map (\<lambda>(color, age, shift).
                          (cs = [] \<or> color \<in> set cs) \<and> (as = [] \<or> age \<in> set as) \<and>
                          (ss = [] \<or> shift \<in> set ss))
                     (zip colors (zip ages_col shifts_col)))) \<and>
         filtered_df df [] [] [] = Inr df"
proof -
  have "filtered_df df [] [] [] = Inr df"
    by (simp add: filtered_df_def)
  then show ?thesis
    using filtered_df_rows[OF assms, of cs as ss] by simp
qed

theorem filtered_df_empty_selection_witness:
  "wf_frame loaded_table \<and>
   map_of loaded_table ''Primary_Fur_Color'' = Some [StrV ''Gray'', StrV ''Black'', NaN] \<and>
   map_of loaded_table ''Age'' = Some [StrV ''Adult'', NaN, StrV ''Juvenile''] \<and>
   map_of loaded_table ''Shift'' = Some [StrV ''AM'', StrV ''PM'', StrV ''AM''] \<and>
   filtered_df loaded_table [StrV ''Gray'', StrV ''Black''] [] [StrV ''AM''] =
     Inr (mask_select loaded_table [True, False, False])"
  using filtered_df_empty_selection[OF wf_loaded_table loaded_table_columns,
      of "[StrV ''Gray'', StrV ''Black'']" "[]" "[StrV ''AM'']"]
    wf_loaded_table loaded_table_columns
  by simp

text \<open>
  C2, as stated: selecting every available value in all three fields gives back the
  full table. It fails on \<open>loaded_table\<close>, where a row has no age and another no fur
  color: the view keeps one of the three rows.
\<close>

theorem filtered_df_full_selection_counterexample:
  "fur_colors loaded_table = Inr [StrV ''Gray'', StrV ''Black''] \<and>
   ages loaded_table = Inr [StrV ''Adult'', StrV ''Juvenile''] \<and>
   shifts loaded_table = Inr [StrV ''AM'', StrV ''PM''] \<and>
   filtered_df loaded_table [StrV ''Gray'', StrV ''Black''] [StrV ''Adult'', StrV ''Juvenile'']
       [StrV ''AM'', StrV ''PM''] =
     Inr [(''X'', [FloatV (-73.9)]),
          (''Y'', [FloatV 40.7]),
          (''Age'', [StrV ''Adult'']),
          (''Primary_Fur_Color'', [StrV ''Gray'']),
          (''Shift'', [StrV ''AM'']),
          (''Eating'', [BoolV True]),
          (''Climbing'', [BoolV True])] \<and>
   len_df loaded_table = 3"
  by (simp add: fur_colors_def ages_def shifts_def available_values_def unique_def dropna_def
      filtered_df_def filter_isin_def getitem_def loaded_table_def mask_select_def
      mask_series_def isin_def len_df_def)

text \<open>
  C2, amended: with each of the three selections equal, as a set, to the available
  values of its column, the view is the table restricted, in table order, to the rows
  that are not null in any filter column that has a non-null value; it is the full
  table when none of the three columns holds a null.
\<close>

theorem filtered_df_full_selection:
  assumes "wf_frame df"
    and "map_of df ''Primary_Fur_Color'' = Some colors"
    and "map_of df ''Age'' = Some ages_col"
    and "map_of df ''Shift'' = Some shifts_col"
    and "fur_colors df = Inr fc" and "set cs = set fc"
    and "ages df = Inr ac" and "set as = set ac"
    and "shifts df = Inr sc" and "set ss = set sc"
  shows "filtered_df df cs as ss =
           Inr (mask_select df
                  (map (\<lambda>(color, age, shift).
                          (dropna colors = [] \<or> color \<noteq> NaN) \<and>
                          (dropna ages_col = [] \<or> age \<noteq> NaN) \<and>
                          (dropna shifts_col = [] \<or> shift \<noteq> NaN))
                     (zip colors (zip ages_col shifts_col)))) \<and>
         (NaN \<notin> set colors \<and> NaN \<notin> set ages_col \<and> NaN \<notin> set shifts_col \<longrightarrow>
            filtered_df df cs as ss = Inr df)"
proof -
  let ?m = "map (\<lambda>(color, age, shift).
                          (dropna colors = [] \<or> color \<noteq> NaN) \<and>
                          (dropna ages_col = [] \<or> age \<noteq> NaN) \<and>
                          (dropna shifts_col = [] \<or> shift \<noteq> NaN))
                     (zip colors (zip ages_col shifts_col))"
  have sets: "set cs = set colors - {NaN}" "set as = set ages_col - {NaN}"
    "set ss = set shifts_col - {NaN}"
    using assms(2-10) set_available[of df]
    unfolding fur_colors_def ages_def shifts_def by auto
  have main: "filtered_df df cs as ss = Inr (mask_select df ?m)"
    by (simp only: filtered_df_rows[OF assms(1-4)] full_mask[OF sets])
  have len: "length colors = len_df df" "length ages_col = len_df df" "length shifts_col = len_df df"
    using assms(1-4) by (auto dest: wf_frame_length)
  have "mask_select df ?m = df"
    if "NaN \<notin> set colors \<and> NaN \<notin> set ages_col \<and> NaN \<notin> set shifts_col"
  proof (rule mask_select_all[OF assms(1)])
    show "length ?m = len_df df" using len by simp
    show "\<forall>b \<in> set ?m. b"
      using that by (auto dest: set_zip_leftD set_zip_rightD)
  qed
  then show ?thesis
    using main by simp
qed

theorem filtered_df_full_selection_witness:
  "wf_frame activity_choice_table \<and>
   map_of activity_choice_table ''Primary_Fur_Color'' = Some [StrV ''Gray'', StrV ''Black'', StrV ''Gray''] \<and>
   map_of activity_choice_table ''Age'' = Some [StrV ''Adult'', StrV ''Adult'', StrV ''Juvenile''] \<and>
   map_of activity_choice_table ''Shift'' = Some [StrV ''AM'', StrV ''PM'', StrV ''AM''] \<and>
   fur_colors activity_choice_table = Inr [StrV ''Gray'', StrV ''Black''] \<and>
   ages activity_choice_table = Inr [StrV ''Adult'', StrV ''Juvenile''] \<and>
   shifts activity_choice_table = Inr [StrV ''AM'', StrV ''PM''] \<and>
   filtered_df activity_choice_table [StrV ''Black'', StrV ''Gray''] [StrV ''Adult'', StrV ''Juvenile'']
     [StrV ''AM'', StrV ''PM''] = Inr activity_choice_table"
proof -
  have wf: "wf_frame activity_choice_table"
    by (simp add: wf_frame_def len_df_def activity_choice_table_def)
  have c: "map_of activity_choice_table ''Primary_Fur_Color'' = Some [StrV ''Gray'', StrV ''Black'', StrV ''Gray'']"
    and a: "map_of activity_choice_table ''Age'' = Some [StrV ''Adult'', StrV ''Adult'', StrV ''Juvenile'']"
    and h: "map_of activity_choice_table ''Shift'' = Some [StrV ''AM'', StrV ''PM'', StrV ''AM'']"
    by (simp_all add: activity_choice_table_def)
  have fc: "fur_colors activity_choice_table = Inr [StrV ''Gray'', StrV ''Black'']"
    and ac: "ages activity_choice_table = Inr [StrV ''Adult'', StrV ''Juvenile'']"
    and sc: "shifts activity_choice_table = Inr [StrV ''AM'', StrV ''PM'']"
    by (simp_all add: fur_colors_def ages_def shifts_def available_values_def getitem_def
        activity_choice_table_def unique_def dropna_def)
  have s1: "set [StrV ''Black'', StrV ''Gray'' :: rat cell] = set [StrV ''Gray'', StrV ''Black'']"
    by auto
  from filtered_df_full_selection[OF wf c a h fc s1 ac refl sc refl, THEN conjunct2]
  have "filtered_df activity_choice_table [StrV ''Black'', StrV ''Gray''] [StrV ''Adult'', StrV ''Juvenile'']
     [StrV ''AM'', StrV ''PM''] = Inr activity_choice_table"
    by simp
  then show ?thesis
    using wf c a h fc ac sc by simp
qed

text \<open>
  C6. For every list of column names whose columns are boolean, the list of sums has
  one entry per name, in the order of the names: the entry for a name is the number of
  \<open>True\<close> values of its column, whatever the sizes of the counts. For the names
  Climbing and Eating with 3 and 10 true rows the result is \<open>[3, 10]\<close>.
\<close>

theorem sum_columns_order:
  assumes "\<forall>c \<in> set cols. map_of df c = Some (column c) \<and>
             (\<forall>v \<in> set (column c). v = BoolV True \<or> v = BoolV False)"
  shows "sum_columns df cols = Inr (map (\<lambda>c. true_count (column c)) cols) \<and>
         activity_counts df = sum_columns df activities \<and>
         vocal_counts df = sum_columns df vocalizations"
proof -
  have "sum_columns df cols = Inr (map (\<lambda>c. true_count (column c)) cols)"
    using assms
  proof (induction cols)
    case Nil
    then show ?case by simp
  next
    case (Cons c cols)
    then show ?case
      by (simp add: getitem_def series_sum_bools)
  qed
  then show ?thesis
    by (simp add: activity_counts_def vocal_counts_def)
qed

theorem sum_columns_order_witness:
  "map_of activity_table ''Climbing'' =
     Some [BoolV True, BoolV False, BoolV True, BoolV False, BoolV False,
           BoolV True, BoolV False, BoolV False, BoolV False, BoolV False] \<and>
   map_of activity_table ''Eating'' =
     Some [BoolV True, BoolV True, BoolV True, BoolV True, BoolV True,
           BoolV True, BoolV True, BoolV True, BoolV True, BoolV True] \<and>
   sum_columns activity_table [''Climbing'', ''Eating''] = Inr [3, 10] \<and>
   sum_columns activity_table [''Eating'', ''Climbing''] = Inr [10, 3]"
proof -
  let ?column = "\<lambda>c. if c = ''Climbing''
              then [BoolV True, BoolV False, BoolV True, BoolV False, BoolV False,
                    BoolV True, BoolV False, BoolV False, BoolV False, BoolV False]
              else [BoolV True, BoolV True, BoolV True, BoolV True, BoolV True,
                    BoolV True, BoolV True, BoolV True, BoolV True, BoolV True :: rat cell]"
  have h: "\<forall>c \<in> set [''Climbing'', ''Eating''].
      map_of activity_table c = Some (?column c) \<and>
      (\<forall>v \<in> set (?column c). v = BoolV True \<or> v = BoolV False)"
    by (simp add: activity_table_def)
  have h': "\<forall>c \<in> set [''Eating'', ''Climbing''].
      map_of activity_table c = Some (?column c) \<and>
      (\<forall>v \<in> set (?column c). v = BoolV True \<or> v = BoolV False)"
    by (simp add: activity_table_def)
  from sum_columns_order[of "[''Climbing'', ''Eating'']" activity_table ?column, OF h]
  have a: "sum_columns activity_table [''Climbing'', ''Eating''] = Inr [3, 10]"
    by (simp add: true_count_def)
  from sum_columns_order[of "[''Eating'', ''Climbing'']" activity_table ?column, OF h']
  have b: "sum_columns activity_table [''Eating'', ''Climbing''] = Inr [10, 3]"
    by (simp add: true_count_def)
  show ?thesis
    using a b by (simp add: activity_table_def)
qed

text \<open>
  C7. The choices offered for a column are its distinct non-null values in the order
  of their first occurrence: \<open>dropna().unique()\<close> equals the list of the values at the
  positions where a non-null value is met for the first time.
\<close>

theorem available_values_first_seen:
  assumes "map_of df col = Some s"
  shows "available_values df col = Inr (first_seen_values s) \<and>
         distinct (first_seen_values s) \<and>
         set (first_seen_values s) = set s - {NaN}"
proof -
  have "available_values df col = Inr (unique (dropna s))"
    using assms by (simp add: available_values_def getitem_def)
  moreover have "distinct (unique (dropna s))"
    by (simp add: unique_def distinct_unique_from)
  moreover have "set (unique (dropna s)) = set s - {NaN}"
    by (auto simp: unique_def set_unique_from dropna_def)
  ultimately show ?thesis
    by (simp add: unique_dropna_first_seen)
qed

theorem available_values_first_seen_witness:
  "map_of loaded_table ''Shift'' = Some [StrV ''AM'', StrV ''PM'', StrV ''AM''] \<and>
   shifts loaded_table = Inr (first_seen_values [StrV ''AM'', StrV ''PM'', StrV ''AM'']) \<and>
   shifts loaded_table = Inr [StrV ''AM'', StrV ''PM''] \<and>
   map_of loaded_table ''Age'' = Some [StrV ''Adult'', NaN, StrV ''Juvenile''] \<and>
   ages loaded_table = Inr [StrV ''Adult'', StrV ''Juvenile'']"
proof -
  have "shifts loaded_table = Inr [StrV ''AM'', StrV ''PM'']"
    "ages loaded_table = Inr [StrV ''Adult'', StrV ''Juvenile'']"
    by (simp_all add: shifts_def ages_def available_values_def getitem_def loaded_table_def
        unique_def dropna_def)
  then show ?thesis
    using available_values_first_seen[OF loaded_table_columns(3)] loaded_table_columns
    by (simp add: shifts_def)
qed

text \<open>
  C10. The adult count is the number of rows whose age is exactly \<open>Adult\<close> and the
  gray count the number of rows whose fur color is exactly \<open>Gray\<close>: a row with a null
  in the column has a false mask entry and is not counted, so the count and the
  number of null rows together never exceed the number of rows of the view.
\<close>

theorem count_where_equals_skips_null:
  assumes "wf_frame df"
    and "map_of df ''Age'' = Some ages_col"
    and "map_of df ''Primary_Fur_Color'' = Some colors"
  shows "adult_count df = Inr (length (filter (\<lambda>v. v = StrV ''Adult'') ages_col)) \<and>
         length (filter (\<lambda>v. v = StrV ''Adult'') ages_col) +
           length (filter (\<lambda>v. v = NaN) ages_col) \<le> len_df df \<and>
         (\<forall>i < length ages_col. ages_col ! i = NaN \<longrightarrow> \<not> eq_mask ages_col (StrV ''Adult'') ! i) \<and>
         gray_count df = Inr (length (filter (\<lambda>v. v = StrV ''Gray'') colors)) \<and>
         length (filter (\<lambda>v. v = StrV ''Gray'') colors) +
           length (filter (\<lambda>v. v = NaN) colors) \<le> len_df df \<and>
         (\<forall>i < length colors. colors ! i = NaN \<longrightarrow> \<not> eq_mask colors (StrV ''Gray'') ! i)"
proof -
  have e: "(\<lambda>x. x \<noteq> NaN \<and> x = StrV t) = (\<lambda>v. v = StrV t)" for t :: string
    by auto
  have "adult_count df = Inr (length (filter (\<lambda>v. v = StrV ''Adult'') ages_col))"
    unfolding adult_count_def count_where_equals_filter[OF assms(1,2)] e ..
  moreover have "gray_count df = Inr (length (filter (\<lambda>v. v = StrV ''Gray'') colors))"
    unfolding gray_count_def count_where_equals_filter[OF assms(1,3)] e ..
  moreover have "length (filter (\<lambda>v. v = StrV ''Adult'') ages_col) +
           length (filter (\<lambda>v. v = NaN) ages_col) \<le> len_df df"
    using filter_two_values[of "StrV ''Adult''" NaN ages_col] wf_frame_length[OF assms(1,2)]
    by simp
  moreover have "length (filter (\<lambda>v. v = StrV ''Gray'') colors) +
           length (filter (\<lambda>v. v = NaN) colors) \<le> len_df df"
    using filter_two_values[of "StrV ''Gray''" NaN colors] wf_frame_length[OF assms(1,3)]
    by simp
  ultimately show ?thesis
    by (simp add: eq_mask_def)
qed

theorem count_where_equals_skips_null_witness:
  "wf_frame loaded_table \<and>
   map_of loaded_table ''Age'' = Some [StrV ''Adult'', NaN, StrV ''Juvenile''] \<and>
   map_of loaded_table ''Primary_Fur_Color'' = Some [StrV ''Gray'', StrV ''Black'', NaN] \<and>
   adult_count loaded_table = Inr 1 \<and> gray_count loaded_table = Inr 1 \<and>
   len_df loaded_table = 3"
proof -
  from count_where_equals_skips_null[OF wf_loaded_table loaded_table_columns(2)
      loaded_table_columns(1)]
  have "adult_count loaded_table = Inr 1" "gray_count loaded_table = Inr 1"
    by simp_all
  then show ?thesis
    using wf_loaded_table loaded_table_columns
    by (simp add: len_df_def loaded_table_def)
qed


end
